theory Spec2Isabelle
  imports Main "HOL-Library.Word"
begin

section \<open>The PDF parser service (services/pdf-parser/main.py)\<close>

text \<open>
  The service has two handlers, \<open>health_check\<close> and \<open>parse_pdf\<close>. What the handlers get
  from the upload and from the PDF library is a parameter of the model: the outcome of
  \<open>await file.read()\<close>, the constructor \<open>PdfReader\<close>, what \<open>page.extract_text()\<close> yields for
  each page and what reading \<open>reader.metadata\<close> yields. Python exceptions are values, told
  apart by whether \<open>except Exception\<close> catches them; every external call and every log line
  a handler makes is appended to a trace, which is the only thing that survives a request.
\<close>

subsection \<open>Python values\<close>

text \<open>
  A \<open>str\<close> is a sequence of code points. A code point from \<open>0xD800\<close> to \<open>0xDFFF\<close> is a
  surrogate; a \<open>str\<close> may hold one, and UTF-8 cannot encode it.
\<close>

type_synonym pystr = "nat list"

definition py :: "string \<Rightarrow> pystr" where
  "py s = map of_char s"

text \<open>A text between apostrophes (code point 39), as error messages quote names.\<close>

definition quoted :: "pystr \<Rightarrow> pystr" where
  "quoted s = [39] @ s @ [39]"

definition is_surrogate :: "nat \<Rightarrow> bool" where
  "is_surrogate c = (0xD800 \<le> c \<and> c \<le> 0xDFFF)"

text \<open>
  An exception: its class and what \<open>str(e)\<close> returns. \<open>Exn\<close> is an instance of
  \<open>Exception\<close>; \<open>BaseExn\<close> is an instance of \<open>BaseException\<close> only, such as
  \<open>asyncio.CancelledError\<close>, \<open>KeyboardInterrupt\<close> and \<open>SystemExit\<close>.
\<close>

datatype exn =
    Exn (exn_class: pystr) (exn_str: pystr)
  | BaseExn (exn_class: pystr) (exn_str: pystr)

fun is_Exception :: "exn \<Rightarrow> bool" where
  "is_Exception (Exn c m) = True"
| "is_Exception (BaseExn c m) = False"

type_synonym bytes = "8 word list"

text \<open>What \<open>page.extract_text()\<close> returns when it returns: a \<open>str\<close> or \<open>None\<close>.\<close>

datatype page_text = PyNone | PyStr pystr

text \<open>
  The objects that go into a response: \<open>None\<close>, an \<open>int\<close>, a \<open>str\<close>, a \<open>dict\<close> with \<open>str\<close>
  keys, or an object of another class, given by the name of its class (a value of the
  document metadata can be one, such as an \<open>IndirectObject\<close> or a \<open>ByteStringObject\<close>).
\<close>

datatype pyval =
    VNone
  | VInt int
  | VStr pystr
  | VDict "(pystr \<times> pyval) list"
  | VObject pystr

text \<open>
  A \<open>PdfReader\<close> object as the handler uses it: \<open>reader.pages\<close>, each page standing for
  the outcome of its \<open>extract_text()\<close> (an exception or a value), and the outcome of
  reading \<open>reader.metadata\<close>: an exception, \<open>None\<close> or a dictionary.
\<close>

record reader =
  pages :: "(exn + page_text) list"
  metadata :: "exn + (pystr \<times> pyval) list option"

text \<open>
  An \<open>UploadFile\<close>: \<open>file.filename\<close> (declared \<open>Optional[str]\<close>) and the outcome of
  \<open>await file.read()\<close>.
\<close>

record upload =
  filename :: "pystr option"
  body_read :: "exn + bytes"

text \<open>The effects of a handler, in the order they happen.\<close>

datatype event =
    LogInfo pystr
  | LogError pystr
  | FileRead
  | PdfReaderCall bytes
  | ExtractText nat

text \<open>
  How a handler ends: it returns the content of its response (served with status 200),
  raises \<open>HTTPException(status_code, detail)\<close>, or lets another exception escape.
\<close>

datatype outcome =
    Returned pyval
  | RaisedHTTP nat pystr
  | Unhandled exn

fun status_code :: "outcome \<Rightarrow> nat option" where
  "status_code (Returned b) = Some 200"
| "status_code (RaisedHTTP c d) = Some c"
| "status_code (Unhandled e) = None"

subsection \<open>String operations\<close>

text \<open>
  \<open>str.lower\<close> on the letters that matter for the suffix test: \<open>A\<close> to \<open>Z\<close> (65 to 90) are
  mapped to \<open>a\<close> to \<open>z\<close>, every other code point is kept.
\<close>

definition lower_char :: "nat \<Rightarrow> nat" where
  "lower_char c = (if 65 \<le> c \<and> c \<le> 90 then c + 32 else c)"

definition lower :: "pystr \<Rightarrow> pystr" where
  "lower s = map lower_char s"

definition endswith :: "pystr \<Rightarrow> pystr \<Rightarrow> bool" where
  "endswith s suffix =
     (length suffix \<le> length s \<and> drop (length s - length suffix) s = suffix)"

text \<open>\<open>str(n)\<close> for an integer, as the f-strings and \<open>json.dumps\<close> format it.\<close>

function str_nat :: "nat \<Rightarrow> pystr" where
  "str_nat n = (if n < 10 then [48 + n] else str_nat (n div 10) @ [48 + n mod 10])"
  by pat_completeness auto
termination
  by (relation "measure (\<lambda>n. n)") auto

declare str_nat.simps [simp del]

definition str_int :: "int \<Rightarrow> pystr" where
  "str_int i = (if i < 0 then py ''-'' @ str_nat (nat (- i)) else str_nat (nat i))"

text \<open>Four lower-case hexadecimal digits, as \<open>'%04x'\<close> formats a number below \<open>0x10000\<close>.\<close>

definition hex_digit :: "nat \<Rightarrow> nat" where
  "hex_digit d = (if d < 10 then 48 + d else 87 + d)"

definition hex4 :: "nat \<Rightarrow> pystr" where
  "hex4 n = [hex_digit (n div 4096 mod 16), hex_digit (n div 256 mod 16),
             hex_digit (n div 16 mod 16), hex_digit (n mod 16)]"

text \<open>
  \<open>sep.join(items)\<close>: the items in order with \<open>sep\<close> before every item but the first; an
  item that is not a \<open>str\<close> raises \<open>TypeError\<close> naming its index.
\<close>

fun join_loop :: "pystr \<Rightarrow> nat \<Rightarrow> page_text list \<Rightarrow> pystr \<Rightarrow> exn + pystr" where
  "join_loop sep i [] acc = Inr acc"
| "join_loop sep i (PyNone # items) acc =
     Inl (Exn (py ''TypeError'')
       (py ''sequence item '' @ str_nat i @ py '': expected str instance, NoneType found''))"
| "join_loop sep i (PyStr s # items) acc =
     join_loop sep (Suc i) items (if i = 0 then acc @ s else acc @ sep @ s)"

definition str_join :: "pystr \<Rightarrow> page_text list \<Rightarrow> exn + pystr" where
  "str_join sep items = join_loop sep 0 items []"

definition newline :: pystr where
  "newline = [10]"

text \<open>
  The two values logged for the first page: \<open>len(page_text) if page_text else 0\<close> and
  \<open>page_text[:100] if page_text else 'EMPTY'\<close>. \<open>None\<close> and the empty string are falsy.
\<close>

fun first_page_len :: "page_text \<Rightarrow> nat" where
  "first_page_len PyNone = 0"
| "first_page_len (PyStr s) = (if s \<noteq> [] then length s else 0)"

fun first_page_chars :: "page_text \<Rightarrow> pystr" where
  "first_page_chars PyNone = py ''EMPTY''"
| "first_page_chars (PyStr s) = (if s \<noteq> [] then take 100 s else py ''EMPTY'')"

subsection \<open>Dictionaries\<close>

text \<open>
  \<open>d[k]\<close> lookup and \<open>d[k] = v\<close> on a dictionary kept in insertion order, and \<open>d.get(k)\<close>,
  which is \<open>None\<close> for a missing key.
\<close>

fun dict_get :: "(pystr \<times> 'v) list \<Rightarrow> pystr \<Rightarrow> 'v option" where
  "dict_get [] k = None"
| "dict_get ((k', v) # d) k = (if k' = k then Some v else dict_get d k)"

fun dict_set :: "(pystr \<times> 'v) list \<Rightarrow> pystr \<Rightarrow> 'v \<Rightarrow> (pystr \<times> 'v) list" where
  "dict_set [] k v = [(k, v)]"
| "dict_set ((k', v') # d) k v = (if k' = k then (k, v) # d else (k', v') # dict_set d k v)"

definition get_or_None :: "(pystr \<times> pyval) list \<Rightarrow> pystr \<Rightarrow> pyval" where
  "get_or_None d k = (case dict_get d k of None \<Rightarrow> VNone | Some v \<Rightarrow> v)"

text \<open>Reading a field of a dictionary value.\<close>

fun field :: "pyval \<Rightarrow> pystr \<Rightarrow> pyval option" where
  "field (VDict d) k = dict_get d k"
| "field _ k = None"

subsection \<open>Building the JSON response\<close>

text \<open>
  \<open>JSONResponse(content=...)\<close> renders its content when it is constructed, as
  \<open>json.dumps(content, ensure_ascii=False, allow_nan=False, indent=None,
  separators=(",", ":")).encode("utf-8")\<close>.

  \<open>json.dumps\<close> writes a \<open>str\<close> between double quotes, escaping the quote, the backslash
  and the code points below \<open>0x20\<close>; it raises \<open>TypeError\<close> at the first object it cannot
  serialise.
\<close>

definition escape_char :: "nat \<Rightarrow> pystr" where
  "escape_char c =
     (if c = 34 then [92, 34]
      else if c = 92 then [92, 92]
      else if c = 8 then [92, 98]
      else if c = 12 then [92, 102]
      else if c = 10 then [92, 110]
      else if c = 13 then [92, 114]
      else if c = 9 then [92, 116]
      else if c < 32 then [92, 117] @ hex4 c
      else [c])"

definition encode_basestring :: "pystr \<Rightarrow> pystr" where
  "encode_basestring s = [34] @ concat (map escape_char s) @ [34]"

text \<open>The pieces of a list with \<open>,\<close> between them.\<close>

fun comma_separated :: "pystr list \<Rightarrow> pystr" where
  "comma_separated [] = []"
| "comma_separated [x] = x"
| "comma_separated (x # y # xs) = x @ [44] @ comma_separated (y # xs)"

fun dumps :: "pyval \<Rightarrow> exn + pystr"
  and dumps_items :: "(pystr \<times> pyval) list \<Rightarrow> exn + pystr list" where
  "dumps VNone = Inr (py ''null'')"
| "dumps (VInt i) = Inr (str_int i)"
| "dumps (VStr s) = Inr (encode_basestring s)"
| "dumps (VDict d) =
     (case dumps_items d of
        Inl e \<Rightarrow> Inl e
      | Inr parts \<Rightarrow> Inr ([123] @ comma_separated parts @ [125]))"
| "dumps (VObject cls) =
     Inl (Exn (py ''TypeError'')
       (py ''Object of type '' @ cls @ py '' is not JSON serializable''))"
| "dumps_items [] = Inr []"
| "dumps_items ((k, v) # d) =
     (case dumps v of
        Inl e \<Rightarrow> Inl e
      | Inr s \<Rightarrow>
          (case dumps_items d of
             Inl e \<Rightarrow> Inl e
           | Inr parts \<Rightarrow> Inr ((encode_basestring k @ [58] @ s) # parts)))"

text \<open>
  \<open>s.encode("utf-8")\<close> raises \<open>UnicodeEncodeError\<close> at the first surrogate of \<open>s\<close>: the error
  names the surrogate and its position, or the first and last position of a run of
  surrogates. The encoded bytes are not needed here, only whether there are any.
\<close>

definition encode_utf8_error :: "pystr \<Rightarrow> exn option" where
  "encode_utf8_error s =
     (let clean = takeWhile (\<lambda>c. \<not> is_surrogate c) s;
          run = takeWhile is_surrogate (dropWhile (\<lambda>c. \<not> is_surrogate c) s);
          start = length clean
      in if run = [] then None
         else if length run = 1
         then Some (Exn (py ''UnicodeEncodeError'')
                (quoted (py ''utf-8'') @ py '' codec can'' @ [39] @ py ''t encode character ''
                   @ quoted ([92, 117] @ hex4 (hd run)) @ py '' in position ''
                   @ str_nat start @ py '': surrogates not allowed''))
         else Some (Exn (py ''UnicodeEncodeError'')
                (quoted (py ''utf-8'') @ py '' codec can'' @ [39]
                   @ py ''t encode characters in position ''
                   @ str_nat start @ py ''-'' @ str_nat (start + length run - 1)
                   @ py '': surrogates not allowed'')))"

definition JSONResponse :: "pyval \<Rightarrow> exn + pyval" where
  "JSONResponse content =
     (case dumps content of
        Inl e \<Rightarrow> Inl e
      | Inr s \<Rightarrow> (case encode_utf8_error s of Some e \<Rightarrow> Inl e | None \<Rightarrow> Inr content))"

subsection \<open>The handlers\<close>

text \<open>\<open>GET /health\<close>.\<close>

definition health_check :: "event list \<Rightarrow> outcome \<times> event list" where
  "health_check tr =
     (Returned (VDict [(py ''status'', VStr (py ''healthy'')),
                       (py ''service'', VStr (py ''pdf-parser''))]), tr)"

text \<open>
  The loop over \<open>enumerate(reader.pages)\<close>: call \<open>extract_text\<close>, log two lines for page 0,
  append the value to \<open>text_parts\<close>. An exception of \<open>extract_text\<close> leaves the loop.
\<close>

fun extract_loop ::
  "nat \<Rightarrow> (exn + page_text) list \<Rightarrow> page_text list \<Rightarrow> event list
     \<Rightarrow> (exn + page_text list) \<times> event list" where
  "extract_loop page_num [] text_parts tr = (Inr text_parts, tr)"
| "extract_loop page_num (page # rest) text_parts tr =
     (case page of
        Inl e \<Rightarrow> (Inl e, tr @ [ExtractText page_num])
      | Inr page_text \<Rightarrow>
          extract_loop (Suc page_num) rest (text_parts @ [page_text])
            (if page_num = 0
             then tr @ [ExtractText page_num,
                        LogInfo (py ''First page text length: ''
                                   @ str_nat (first_page_len page_text)),
                        LogInfo (py ''First 100 chars: '' @ first_page_chars page_text)]
             else tr @ [ExtractText page_num]))"

text \<open>
  The metadata dictionary of the response: \<open>pages\<close> and three \<open>None\<close> entries, overwritten
  from the document metadata when \<open>reader.metadata\<close> is truthy (not \<open>None\<close>, not empty).
\<close>

definition build_metadata ::
  "nat \<Rightarrow> (pystr \<times> pyval) list option \<Rightarrow> (pystr \<times> pyval) list" where
  "build_metadata n reader_metadata =
     (let metadata0 = [(py ''pages'', VInt (int n)),
                       (py ''author'', VNone),
                       (py ''title'', VNone),
                       (py ''createdDate'', VNone)]
      in case reader_metadata of
           None \<Rightarrow> metadata0
         | Some md \<Rightarrow>
             if md = [] then metadata0
             else dict_set
                    (dict_set
                      (dict_set metadata0 (py ''author'') (get_or_None md (py ''/Author'')))
                      (py ''title'') (get_or_None md (py ''/Title'')))
                    (py ''createdDate'') (get_or_None md (py ''/CreationDate'')))"

text \<open>
  The body of the \<open>try\<close> block: the content of the response, or the exception raised. The
  \<open>JSONResponse\<close> is built inside the block, after the last log line.
\<close>

definition try_body ::
  "(bytes \<Rightarrow> exn + reader) \<Rightarrow> upload \<Rightarrow> pystr \<Rightarrow> event list
     \<Rightarrow> (exn + pyval) \<times> event list" where
  "try_body PdfReader file fname tr =
     (case body_read file of
        Inl e \<Rightarrow> (Inl e, tr @ [FileRead])
      | Inr contents \<Rightarrow>
          (case PdfReader contents of
             Inl e \<Rightarrow> (Inl e, tr @ [FileRead, PdfReaderCall contents])
           | Inr r \<Rightarrow>
               (case extract_loop 0 (pages r) [] (tr @ [FileRead, PdfReaderCall contents]) of
                  (Inl e, tr') \<Rightarrow> (Inl e, tr')
                | (Inr text_parts, tr') \<Rightarrow>
                    (case str_join newline text_parts of
                       Inl e \<Rightarrow> (Inl e, tr')
                     | Inr full_text \<Rightarrow>
                         (case metadata r of
                            Inl e \<Rightarrow>
                              (Inl e, tr' @ [LogInfo (py ''Total extracted text length: ''
                                                       @ str_nat (length full_text))])
                          | Inr reader_metadata \<Rightarrow>
                              (JSONResponse
                                 (VDict [(py ''text'', VStr full_text),
                                         (py ''metadata'',
                                          VDict (build_metadata (length (pages r))
                                                   reader_metadata))]),
                               tr' @ [LogInfo (py ''Total extracted text length: ''
                                                 @ str_nat (length full_text)),
                                      LogInfo (py ''Successfully parsed PDF: '' @ fname
                                                 @ py '' ('' @ str_nat (length (pages r))
                                                 @ py '' pages, ''
                                                 @ str_nat (length full_text)
                                                 @ py '' chars)'')]))))))"

text \<open>
  \<open>POST /parse\<close>. With no filename, \<open>file.filename.lower()\<close> raises \<open>AttributeError\<close>
  before the \<open>try\<close> block is entered. The clause \<open>except Exception\<close> catches the instances
  of \<open>Exception\<close>; any other exception leaves the handler as it is.
\<close>

definition parse_pdf ::
  "(bytes \<Rightarrow> exn + reader) \<Rightarrow> upload \<Rightarrow> event list \<Rightarrow> outcome \<times> event list" where
  "parse_pdf PdfReader file tr =
     (case filename file of
        None \<Rightarrow>
          (Unhandled (Exn (py ''AttributeError'')
             (quoted (py ''NoneType'') @ py '' object has no attribute ''
                @ quoted (py ''lower''))), tr)
      | Some fname \<Rightarrow>
          if \<not> endswith (lower fname) (py ''.pdf'')
          then (RaisedHTTP 400 (py ''File must be a PDF''), tr)
          else (case try_body PdfReader file fname tr of
                  (Inr content, tr') \<Rightarrow> (Returned content, tr')
                | (Inl e, tr') \<Rightarrow>
                    if is_Exception e
                    then (RaisedHTTP 500 (py ''PDF parsing failed: '' @ exn_str e),
                          tr' @ [LogError (py ''Error parsing PDF '' @ fname @ py '': ''
                                             @ exn_str e)])
                    else (Unhandled e, tr')))"

text \<open>
  Routing: \<open>@app.get("/health")\<close> and \<open>@app.post("/parse")\<close>. The service answers its
  requests one after the other, each starting from the trace the previous ones left.
\<close>

datatype request = GetHealth | PostParse upload

definition dispatch ::
  "(bytes \<Rightarrow> exn + reader) \<Rightarrow> request \<Rightarrow> event list \<Rightarrow> outcome \<times> event list" where
  "dispatch PdfReader req tr =
     (case req of
        GetHealth \<Rightarrow> health_check tr
      | PostParse file \<Rightarrow> parse_pdf PdfReader file tr)"

fun serve ::
  "(bytes \<Rightarrow> exn + reader) \<Rightarrow> request list \<Rightarrow> event list
     \<Rightarrow> outcome list \<times> event list" where
  "serve PdfReader [] tr = ([], tr)"
| "serve PdfReader (req # reqs) tr =
     (case dispatch PdfReader req tr of
        (out, tr') \<Rightarrow>
          (case serve PdfReader reqs tr' of (outs, tr'') \<Rightarrow> (out # outs, tr'')))"

subsection \<open>What the specification speaks of\<close>

text \<open>
  The specification's text of a document: the page texts in page order, one newline at
  every page boundary, an empty page contributing the empty string.
\<close>

fun pages_joined :: "pystr list \<Rightarrow> pystr" where
  "pages_joined [] = []"
| "pages_joined [t] = t"
| "pages_joined (t # u # ts) = t @ newline @ pages_joined (u # ts)"

text \<open>The number of \<open>extract_text\<close> calls recorded in a trace.\<close>

definition extract_calls :: "event list \<Rightarrow> nat" where
  "extract_calls tr =
     length (filter (\<lambda>ev. case ev of ExtractText n \<Rightarrow> True | _ \<Rightarrow> False) tr)"

subsection \<open>Sample uploads\<close>

text \<open>
  Readers for a three-page document whose second page has no text, for a document with a
  page for which \<open>extract_text\<close> yields \<open>None\<close>, for the three-page document with a \<open>/Title\<close>
  that is an \<open>IndirectObject\<close>, and for a document whose page text ends in a lone surrogate;
  and a \<open>PdfReader\<close> that accepts the four byte strings standing for them and rejects every
  other.
\<close>

definition three_page_reader :: reader where
  "three_page_reader =
     \<lparr>pages = [Inr (PyStr (py ''Hello'')), Inr (PyStr []), Inr (PyStr (py ''World''))],
      metadata = Inr (Some [(py ''/Title'', VStr (py ''Report'')),
                            (py ''/Producer'', VStr (py ''pdfTeX''))])\<rparr>"

definition scanned_reader :: reader where
  "scanned_reader =
     \<lparr>pages = [Inr (PyStr (py ''Cover'')), Inr PyNone], metadata = Inr None\<rparr>"

definition indirect_title_reader :: reader where
  "indirect_title_reader =
     \<lparr>pages = [Inr (PyStr (py ''Hello'')), Inr (PyStr []), Inr (PyStr (py ''World''))],
      metadata = Inr (Some [(py ''/Title'', VObject (py ''IndirectObject''))])\<rparr>"

definition surrogate_reader :: reader where
  "surrogate_reader =
     \<lparr>pages = [Inr (PyStr (py ''Hi'' @ [0xD835]))], metadata = Inr None\<rparr>"

definition sample_PdfReader :: "bytes \<Rightarrow> exn + reader" where
  "sample_PdfReader b =
     (if b = [0x25, 0x50, 0x44, 0x46, 1] then Inr three_page_reader
      else if b = [0x25, 0x50, 0x44, 0x46, 2] then Inr scanned_reader
      else if b = [0x25, 0x50, 0x44, 0x46, 3] then Inr indirect_title_reader
      else if b = [0x25, 0x50, 0x44, 0x46, 4] then Inr surrogate_reader
      else Inl (Exn (py ''PdfReadError'') (py ''EOF marker not found'')))"

definition report_upload :: upload where
  "report_upload =
     \<lparr>filename = Some (py ''report.PDF''), body_read = Inr [0x25, 0x50, 0x44, 0x46, 1]\<rparr>"

definition scanned_upload :: upload where
  "scanned_upload =
     \<lparr>filename = Some (py ''scan.pdf''), body_read = Inr [0x25, 0x50, 0x44, 0x46, 2]\<rparr>"

definition indirect_upload :: upload where
  "indirect_upload =
     \<lparr>filename = Some (py ''report.PDF''), body_read = Inr [0x25, 0x50, 0x44, 0x46, 3]\<rparr>"

definition surrogate_upload :: upload where
  "surrogate_upload =
     \<lparr>filename = Some (py ''glyphs.pdf''), body_read = Inr [0x25, 0x50, 0x44, 0x46, 4]\<rparr>"

definition corrupt_upload :: upload where
  "corrupt_upload = \<lparr>filename = Some (py ''broken.pdf''), body_read = Inr [0]\<rparr>"

definition cancelled_upload :: upload where
  "cancelled_upload =
     \<lparr>filename = Some (py ''report.pdf''),
      body_read = Inl (BaseExn (py ''CancelledError'') [])\<rparr>"

definition notes_upload :: upload where
  "notes_upload =
     \<lparr>filename = Some (py ''notes.txt''), body_read = Inr [0x25, 0x50, 0x44, 0x46, 1]\<rparr>"

definition nameless_upload :: upload where
  "nameless_upload = \<lparr>filename = None, body_read = Inr [0x25, 0x50, 0x44, 0x46, 1]\<rparr>"

section \<open>Properties of the building blocks\<close>

subsection \<open>The suffix test\<close>

lemma py_pdf: "py ''.pdf'' = [46, 112, 100, 102]"
  by (simp add: py_def)

lemma lower_char_p: "lower_char c = 112 \<longleftrightarrow> c = 112 \<or> c = 80"
  by (auto simp: lower_char_def)

lemma lower_char_d: "lower_char c = 100 \<longleftrightarrow> c = 100 \<or> c = 68"
  by (auto simp: lower_char_def)

lemma lower_char_f: "lower_char c = 102 \<longleftrightarrow> c = 102 \<or> c = 70"
  by (auto simp: lower_char_def)

lemma lower_char_dot: "lower_char c = 46 \<longleftrightarrow> c = 46"
  by (auto simp: lower_char_def)

lemma endswith_iff: "endswith s suf \<longleftrightarrow> (\<exists>p. s = p @ suf)"
  unfolding endswith_def
proof
  assume a: "length suf \<le> length s \<and> drop (length s - length suf) s = suf"
  have "s = take (length s - length suf) s @ drop (length s - length suf) s" by simp
  with a show "\<exists>p. s = p @ suf" by metis
next
  assume "\<exists>p. s = p @ suf"
  then obtain p where "s = p @ suf" ..
  then show "length suf \<le> length s \<and> drop (length s - length suf) s = suf" by simp
qed

text \<open>
  The test \<open>filename.lower().endswith('.pdf')\<close> holds exactly for the names whose last four
  characters are a dot and the letters p, d, f in either case.
\<close>

lemma endswith_lower_pdf_iff:
  "endswith (lower s) (py ''.pdf'') \<longleftrightarrow>
     (\<exists>p c1 c2 c3. s = p @ py ''.'' @ [c1, c2, c3]
        \<and> c1 \<in> set (py ''pP'') \<and> c2 \<in> set (py ''dD'') \<and> c3 \<in> set (py ''fF''))"
proof
  assume "endswith (lower s) (py ''.pdf'')"
  then obtain q where "map lower_char s = q @ [46, 112, 100, 102]"
    by (auto simp: endswith_iff lower_def py_pdf)
  then obtain p c0 c1 c2 c3 where s: "s = p @ [c0, c1, c2, c3]"
    and l: "lower_char c0 = 46" "lower_char c1 = 112"
           "lower_char c2 = 100" "lower_char c3 = 102"
    by (auto simp: map_eq_append_conv map_eq_Cons_conv)
  from l have "c0 = 46" "c1 = 112 \<or> c1 = 80" "c2 = 100 \<or> c2 = 68" "c3 = 102 \<or> c3 = 70"
    unfolding lower_char_p lower_char_d lower_char_f lower_char_dot by simp_all
  then have "s = p @ py ''.'' @ [c1, c2, c3]
        \<and> c1 \<in> set (py ''pP'') \<and> c2 \<in> set (py ''dD'') \<and> c3 \<in> set (py ''fF'')"
    unfolding s by (auto simp: py_def)
  then show "\<exists>p c1 c2 c3. s = p @ py ''.'' @ [c1, c2, c3]
        \<and> c1 \<in> set (py ''pP'') \<and> c2 \<in> set (py ''dD'') \<and> c3 \<in> set (py ''fF'')"
    by blast
next
  assume "\<exists>p c1 c2 c3. s = p @ py ''.'' @ [c1, c2, c3]
        \<and> c1 \<in> set (py ''pP'') \<and> c2 \<in> set (py ''dD'') \<and> c3 \<in> set (py ''fF'')"
  then obtain p c1 c2 c3 where s: "s = p @ [46, c1, c2, c3]"
    and c: "c1 = 112 \<or> c1 = 80" "c2 = 100 \<or> c2 = 68" "c3 = 102 \<or> c3 = 70"
    by (auto simp: py_def)
  from c have l: "lower_char c1 = 112" "lower_char c2 = 100" "lower_char c3 = 102"
    unfolding lower_char_p lower_char_d lower_char_f by simp_all
  have "lower s = map lower_char p @ [46, 112, 100, 102]"
    using l by (simp add: s lower_def lower_char_dot)
  then show "endswith (lower s) (py ''.pdf'')"
    unfolding endswith_iff py_pdf by blast
qed

subsection \<open>Joining\<close>

lemma join_loop_strs_Suc:
  "join_loop sep (Suc i) (map PyStr ts) acc = Inr (acc @ concat (map (\<lambda>t. sep @ t) ts))"
  by (induction ts arbitrary: i acc) simp_all

lemma pages_joined_Cons:
  "pages_joined (t # ts) = t @ concat (map (\<lambda>u. newline @ u) ts)"
  by (induction ts arbitrary: t) simp_all

text \<open>On strings, the join of the code is the text the specification describes.\<close>

lemma str_join_strs: "str_join newline (map PyStr ts) = Inr (pages_joined ts)"
proof (cases ts)
  case Nil
  then show ?thesis by (simp add: str_join_def)
next
  case (Cons t us)
  then show ?thesis
    by (simp add: str_join_def join_loop_strs_Suc pages_joined_Cons)
qed

lemma join_loop_None:
  "join_loop sep i (map PyStr ts @ PyNone # rest) acc =
     Inl (Exn (py ''TypeError'')
       (py ''sequence item '' @ str_nat (i + length ts)
          @ py '': expected str instance, NoneType found''))"
  by (induction ts arbitrary: i acc) simp_all

lemma str_join_None:
  "str_join sep (map PyStr ts @ PyNone # rest) =
     Inl (Exn (py ''TypeError'')
       (py ''sequence item '' @ str_nat (length ts)
          @ py '': expected str instance, NoneType found''))"
  using join_loop_None [of sep 0 ts rest "[]"] by (simp add: str_join_def)

text \<open>A list of page texts is all strings, or has a first \<open>None\<close>.\<close>

lemma items_split:
  "(\<exists>ts. items = map PyStr ts) \<or> (\<exists>ts rest. items = map PyStr ts @ PyNone # rest)"
proof (induction items)
  case Nil
  then show ?case by simp
next
  case (Cons x items)
  show ?case
  proof (cases x)
    case PyNone
    then have "x # items = map PyStr [] @ PyNone # items" by simp
    then show ?thesis by (intro disjI2 exI)
  next
    case (PyStr s)
    from Cons show ?thesis
    proof
      assume "\<exists>ts. items = map PyStr ts"
      then obtain ts where "items = map PyStr ts" ..
      then have "x # items = map PyStr (s # ts)" using PyStr by simp
      then show ?thesis by (intro disjI1 exI)
    next
      assume "\<exists>ts rest. items = map PyStr ts @ PyNone # rest"
      then obtain ts rest where "items = map PyStr ts @ PyNone # rest" by blast
      then have "x # items = map PyStr (s # ts) @ PyNone # rest" using PyStr by simp
      then show ?thesis by (intro disjI2 exI)
    qed
  qed
qed


subsection \<open>The extraction loop\<close>

lemma extract_loop_ok:
  "fst (extract_loop n (map Inr vs) acc tr) = Inr (acc @ vs)"
  by (induction vs arbitrary: n acc tr) simp_all

lemma extract_loop_raise:
  "fst (extract_loop n (map Inr vs @ Inl e # rest) acc tr) = Inl e"
  by (induction vs arbitrary: n acc tr) simp_all

text \<open>Every page extracts, or there is a first page whose extraction raises.\<close>

lemma pages_split:
  "(\<exists>vs. ps = map Inr vs) \<or> (\<exists>vs e rest. ps = map Inr vs @ Inl e # rest)"
proof (induction ps)
  case Nil
  then show ?case by simp
next
  case (Cons x ps)
  show ?case
  proof (cases x)
    case (Inl e)
    then have "x # ps = map Inr [] @ Inl e # ps" by simp
    then show ?thesis by (intro disjI2 exI)
  next
    case (Inr v)
    from Cons show ?thesis
    proof
      assume "\<exists>vs. ps = map Inr vs"
      then obtain vs where "ps = map Inr vs" ..
      then have "x # ps = map Inr (v # vs)" using Inr by simp
      then show ?thesis by (intro disjI1 exI)
    next
      assume "\<exists>vs e rest. ps = map Inr vs @ Inl e # rest"
      then obtain vs e rest where "ps = map Inr vs @ Inl e # rest" by blast
      then have "x # ps = map Inr (v # vs) @ Inl e # rest" using Inr by simp
      then show ?thesis by (intro disjI2 exI)
    qed
  qed
qed

lemma extract_loop_trace_indep:
  "fst (extract_loop n ps acc tr1) = fst (extract_loop n ps acc tr2)"
  by (induction ps arbitrary: n acc tr1 tr2) (simp_all split: sum.splits)

lemma extract_calls_append [simp]:
  "extract_calls (xs @ ys) = extract_calls xs + extract_calls ys"
  by (simp add: extract_calls_def)

lemma extract_loop_calls:
  "extract_calls (snd (extract_loop n (map Inr vs) acc tr)) = extract_calls tr + length vs"
  by (induction vs arbitrary: n acc tr) (simp_all add: extract_calls_def)

subsection \<open>The metadata dictionary\<close>

lemma build_metadata_pages:
  "dict_get (build_metadata n md) (py ''pages'') = Some (VInt (int n))"
  by (auto simp: build_metadata_def Let_def py_def split: option.splits)

lemma build_metadata_author:
  "dict_get (build_metadata n md) (py ''author'') =
     Some (case md of None \<Rightarrow> VNone
           | Some d \<Rightarrow> (case dict_get d (py ''/Author'') of None \<Rightarrow> VNone | Some v \<Rightarrow> v))"
  by (auto simp: build_metadata_def get_or_None_def Let_def py_def split: option.splits)

lemma build_metadata_title:
  "dict_get (build_metadata n md) (py ''title'') =
     Some (case md of None \<Rightarrow> VNone
           | Some d \<Rightarrow> (case dict_get d (py ''/Title'') of None \<Rightarrow> VNone | Some v \<Rightarrow> v))"
  by (auto simp: build_metadata_def get_or_None_def Let_def py_def split: option.splits)

lemma build_metadata_createdDate:
  "dict_get (build_metadata n md) (py ''createdDate'') =
     Some (case md of None \<Rightarrow> VNone
           | Some d \<Rightarrow> (case dict_get d (py ''/CreationDate'') of
                           None \<Rightarrow> VNone | Some v \<Rightarrow> v))"
  by (auto simp: build_metadata_def get_or_None_def Let_def py_def split: option.splits)

lemma build_metadata_keys:
  "map fst (build_metadata n md) = [py ''pages'', py ''author'', py ''title'', py ''createdDate'']"
  by (auto simp: build_metadata_def Let_def py_def split: option.splits)

subsection \<open>Building the response\<close>

lemma JSONResponse_Inr_D: "JSONResponse content = Inr b \<Longrightarrow> b = content"
  by (auto simp: JSONResponse_def split: sum.splits option.splits)

text \<open>UTF-8 encodes a string exactly when no surrogate occurs in it.\<close>

lemma encode_utf8_error_None_iff:
  "encode_utf8_error s = None \<longleftrightarrow> (\<forall>c\<in>set s. \<not> is_surrogate c)"
proof -
  have "takeWhile is_surrogate (dropWhile (\<lambda>c. \<not> is_surrogate c) s) = [] \<longleftrightarrow>
          (\<forall>c\<in>set s. \<not> is_surrogate c)"
  proof (cases "dropWhile (\<lambda>c. \<not> is_surrogate c) s")
    case Nil
    then have "\<forall>c\<in>set s. \<not> is_surrogate c" by (simp add: dropWhile_eq_Nil_conv)
    then show ?thesis unfolding Nil by simp
  next
    case (Cons x xs)
    then have "is_surrogate x" using hd_dropWhile [of "\<lambda>c. \<not> is_surrogate c" s] by simp
    moreover have "x \<in> set s"
      using Cons set_dropWhileD [of x "\<lambda>c. \<not> is_surrogate c" s] by simp
    ultimately show ?thesis using Cons by auto
  qed
  then show ?thesis by (simp add: encode_utf8_error_def Let_def)
qed

text \<open>The response is built exactly when the content is serialised to a text without surrogate.\<close>

lemma JSONResponse_Inr_iff:
  "JSONResponse content = Inr b \<longleftrightarrow>
     b = content \<and> (\<exists>s. dumps content = Inr s \<and> (\<forall>c\<in>set s. \<not> is_surrogate c))"
proof (cases "dumps content")
  case (Inl e)
  then show ?thesis by (simp add: JSONResponse_def)
next
  case (Inr s)
  show ?thesis
  proof (cases "encode_utf8_error s")
    case None
    with Inr encode_utf8_error_None_iff [of s] show ?thesis
      by (auto simp: JSONResponse_def)
  next
    case (Some e)
    with Inr encode_utf8_error_None_iff [of s] show ?thesis
      by (auto simp: JSONResponse_def)
  qed
qed

section \<open>The parse handler, case by case\<close>

lemma try_body_read_raises:
  "body_read up = Inl e \<Longrightarrow> try_body P up fname tr = (Inl e, tr @ [FileRead])"
  by (simp add: try_body_def)

lemma try_body_reader_raises:
  "body_read up = Inr c \<Longrightarrow> P c = Inl e \<Longrightarrow>
     try_body P up fname tr = (Inl e, tr @ [FileRead, PdfReaderCall c])"
  by (simp add: try_body_def)

lemma try_body_extract_raises:
  "body_read up = Inr c \<Longrightarrow> P c = Inr r \<Longrightarrow> pages r = map Inr vs @ Inl e # rest \<Longrightarrow>
     fst (try_body P up fname tr) = Inl e"
  by (simp add: try_body_def case_prod_beta extract_loop_raise)

lemma try_body_join_fails:
  "body_read up = Inr c \<Longrightarrow> P c = Inr r \<Longrightarrow> pages r = map Inr vs \<Longrightarrow>
   str_join newline vs = Inl e \<Longrightarrow> fst (try_body P up fname tr) = Inl e"
  by (simp add: try_body_def case_prod_beta extract_loop_ok)

lemma try_body_join_raises:
  "body_read up = Inr c \<Longrightarrow> P c = Inr r \<Longrightarrow>
   pages r = map Inr (map PyStr ts @ PyNone # rest) \<Longrightarrow>
     fst (try_body P up fname tr) =
       Inl (Exn (py ''TypeError'')
         (py ''sequence item '' @ str_nat (length ts)
            @ py '': expected str instance, NoneType found''))"
  by (simp add: try_body_def case_prod_beta extract_loop_ok str_join_None del: map_append)

lemma try_body_metadata_raises:
  "body_read up = Inr c \<Longrightarrow> P c = Inr r \<Longrightarrow> pages r = map Inr (map PyStr ts) \<Longrightarrow>
   metadata r = Inl e \<Longrightarrow> fst (try_body P up fname tr) = Inl e"
  by (simp add: try_body_def case_prod_beta extract_loop_ok str_join_strs del: map_map)

text \<open>When nothing raised before it, the block ends with what \<open>JSONResponse\<close> does.\<close>

lemma try_body_response:
  "body_read up = Inr c \<Longrightarrow> P c = Inr r \<Longrightarrow> pages r = map Inr (map PyStr ts) \<Longrightarrow>
   metadata r = Inr md \<Longrightarrow>
     fst (try_body P up fname tr) =
       JSONResponse (VDict [(py ''text'', VStr (pages_joined ts)),
                            (py ''metadata'', VDict (build_metadata (length (pages r)) md))])"
  by (simp add: try_body_def case_prod_beta extract_loop_ok str_join_strs del: map_map)

lemma try_body_response_calls:
  "body_read up = Inr c \<Longrightarrow> P c = Inr r \<Longrightarrow> pages r = map Inr (map PyStr ts) \<Longrightarrow>
   metadata r = Inr md \<Longrightarrow>
     extract_calls (snd (try_body P up fname tr)) = extract_calls tr + length ts"
  by (simp add: try_body_def case_prod_beta extract_loop_ok extract_loop_calls str_join_strs
        del: map_map) (simp add: extract_calls_def)

text \<open>The \<open>try\<close> block returns only when nothing in it raised.\<close>

lemma try_body_Inr_D:
  assumes "fst (try_body P up fname tr) = Inr body"
  shows "\<exists>c r ts md. body_read up = Inr c \<and> P c = Inr r \<and> pages r = map Inr (map PyStr ts)
           \<and> metadata r = Inr md
           \<and> body = VDict [(py ''text'', VStr (pages_joined ts)),
                            (py ''metadata'', VDict (build_metadata (length (pages r)) md))]
           \<and> JSONResponse body = Inr body"
proof (cases "body_read up")
  case (Inl e)
  with assms show ?thesis by (simp add: try_body_read_raises)
next
  case c: (Inr c)
  show ?thesis
  proof (cases "P c")
    case (Inl e)
    with assms c show ?thesis by (simp add: try_body_reader_raises)
  next
    case r: (Inr r)
    from pages_split [of "pages r"] show ?thesis
    proof
      assume "\<exists>vs e rest. pages r = map Inr vs @ Inl e # rest"
      then obtain vs e rest where "pages r = map Inr vs @ Inl e # rest" by blast
      with assms c r show ?thesis by (simp add: try_body_extract_raises)
    next
      assume "\<exists>vs. pages r = map Inr vs"
      then obtain vs where vs: "pages r = map Inr vs" ..
      from items_split [of vs] show ?thesis
      proof
        assume "\<exists>ts rest. vs = map PyStr ts @ PyNone # rest"
        then obtain ts rest where "vs = map PyStr ts @ PyNone # rest" by blast
        with vs have "pages r = map Inr (map PyStr ts @ PyNone # rest)" by simp
        from try_body_join_raises [where P = P and up = up and c = c and r = r, OF c r this]
          assms
        show ?thesis by simp
      next
        assume "\<exists>ts. vs = map PyStr ts"
        then obtain ts where "vs = map PyStr ts" ..
        with vs have p: "pages r = map Inr (map PyStr ts)" by simp
        show ?thesis
        proof (cases "metadata r")
          case (Inl e)
          from try_body_metadata_raises [where P = P and up = up and c = c and r = r,
              OF c r p Inl] assms
          show ?thesis by simp
        next
          case m: (Inr md)
          from try_body_response [where P = P and up = up and c = c and r = r, OF c r p m]
            assms
          have j: "JSONResponse
                     (VDict [(py ''text'', VStr (pages_joined ts)),
                             (py ''metadata'', VDict (build_metadata (length (pages r)) md))])
                   = Inr body"
            by simp
          then have b: "body = VDict [(py ''text'', VStr (pages_joined ts)),
                             (py ''metadata'', VDict (build_metadata (length (pages r)) md))]"
            by (rule JSONResponse_Inr_D)
          from j have "JSONResponse body = Inr body" unfolding b [symmetric] .
          with c r p m b show ?thesis by (intro exI conjI)
        qed
      qed
    qed
  qed
qed

lemma try_body_trace_indep:
  "fst (try_body P up fname tr1) = fst (try_body P up fname tr2)"
proof (cases "body_read up")
  case (Inl e)
  then show ?thesis by (simp add: try_body_read_raises)
next
  case c: (Inr c)
  show ?thesis
  proof (cases "P c")
    case (Inl e)
    with c show ?thesis by (simp add: try_body_reader_raises)
  next
    case (Inr r)
    have "fst (extract_loop 0 (pages r) [] (tr1 @ [FileRead, PdfReaderCall c])) =
          fst (extract_loop 0 (pages r) [] (tr2 @ [FileRead, PdfReaderCall c]))"
      by (rule extract_loop_trace_indep)
    with c Inr show ?thesis
      by (simp add: try_body_def case_prod_beta split: sum.splits)
  qed
qed

lemma parse_pdf_fst:
  "filename up = Some fname \<Longrightarrow> endswith (lower fname) (py ''.pdf'') \<Longrightarrow>
     fst (parse_pdf P up tr) =
       (case fst (try_body P up fname tr) of
          Inl e \<Rightarrow> if is_Exception e
                   then RaisedHTTP 500 (py ''PDF parsing failed: '' @ exn_str e)
                   else Unhandled e
        | Inr content \<Rightarrow> Returned content)"
  by (simp add: parse_pdf_def case_prod_beta split: sum.splits)

lemma parse_pdf_snd_ok:
  "filename up = Some fname \<Longrightarrow> endswith (lower fname) (py ''.pdf'') \<Longrightarrow>
   fst (try_body P up fname tr) = Inr content \<Longrightarrow>
     snd (parse_pdf P up tr) = snd (try_body P up fname tr)"
  by (simp add: parse_pdf_def case_prod_beta split: sum.splits)

text \<open>The outcome of a request does not depend on the trace it starts from.\<close>

lemma parse_pdf_trace_indep:
  "fst (parse_pdf P up tr1) = fst (parse_pdf P up tr2)"
proof (cases "filename up")
  case None
  then show ?thesis by (simp add: parse_pdf_def)
next
  case (Some fname)
  show ?thesis
  proof (cases "endswith (lower fname) (py ''.pdf'')")
    case True
    with Some show ?thesis
      by (simp add: parse_pdf_fst
            try_body_trace_indep [where P = P and up = up and fname = fname
              and ?tr1.0 = tr1 and ?tr2.0 = tr2])
  next
    case False
    with Some show ?thesis by (simp add: parse_pdf_def)
  qed
qed

text \<open>A returned body: what the request was and what the body is.\<close>

lemma parse_pdf_Returned_D:
  assumes "fst (parse_pdf P up tr) = Returned body"
  shows "\<exists>fname c r ts md. filename up = Some fname \<and> endswith (lower fname) (py ''.pdf'')
           \<and> body_read up = Inr c \<and> P c = Inr r \<and> pages r = map Inr (map PyStr ts)
           \<and> metadata r = Inr md
           \<and> body = VDict [(py ''text'', VStr (pages_joined ts)),
                            (py ''metadata'', VDict (build_metadata (length (pages r)) md))]
           \<and> JSONResponse body = Inr body
           \<and> extract_calls (snd (parse_pdf P up tr)) = extract_calls tr + length ts"
proof (cases "filename up")
  case None
  with assms show ?thesis by (simp add: parse_pdf_def)
next
  case (Some fname)
  show ?thesis
  proof (cases "endswith (lower fname) (py ''.pdf'')")
    case False
    with Some assms show ?thesis by (simp add: parse_pdf_def)
  next
    case True
    from assms have t: "fst (try_body P up fname tr) = Inr body"
      by (simp add: parse_pdf_fst [OF Some True] split: sum.splits if_splits)
    from try_body_Inr_D [OF t] obtain c r ts md where
      c: "body_read up = Inr c" and r: "P c = Inr r"
      and p: "pages r = map Inr (map PyStr ts)" and m: "metadata r = Inr md"
      and b: "body = VDict [(py ''text'', VStr (pages_joined ts)),
                            (py ''metadata'', VDict (build_metadata (length (pages r)) md))]"
      and j: "JSONResponse body = Inr body"
      by blast
    have "extract_calls (snd (parse_pdf P up tr)) = extract_calls tr + length ts"
      by (simp add: parse_pdf_snd_ok [OF Some True t]
            try_body_response_calls [where P = P and up = up and c = c and r = r, OF c r p m])
    with Some True c r p m b j show ?thesis by (intro exI conjI)
  qed
qed

subsection \<open>The sample uploads, run\<close>

lemmas sample_defs =
  three_page_reader_def scanned_reader_def indirect_title_reader_def surrogate_reader_def
  sample_PdfReader_def report_upload_def scanned_upload_def indirect_upload_def
  surrogate_upload_def corrupt_upload_def cancelled_upload_def notes_upload_def
  nameless_upload_def

lemmas run_defs =
  parse_pdf_def try_body_def lower_def lower_char_def endswith_def str_join_def newline_def
  build_metadata_def get_or_None_def str_nat.simps str_int_def py_def quoted_def
  JSONResponse_def encode_basestring_def escape_char_def encode_utf8_error_def
  is_surrogate_def hex4_def hex_digit_def Let_def

lemma report_upload_returns:
  "fst (parse_pdf sample_PdfReader report_upload []) =
     Returned (VDict [(py ''text'', VStr (py ''Hello'' @ [10, 10] @ py ''World'')),
                      (py ''metadata'',
                       VDict [(py ''pages'', VInt 3), (py ''author'', VNone),
                              (py ''title'', VStr (py ''Report'')),
                              (py ''createdDate'', VNone)])])"
  by (simp add: sample_defs run_defs)

text \<open>
  A page text with a lone surrogate is extracted and joined, and then cannot be encoded:
  the answer is 500 with the text of the \<open>UnicodeEncodeError\<close>.
\<close>

lemma surrogate_upload_is_500:
  "fst (parse_pdf sample_PdfReader surrogate_upload []) =
     RaisedHTTP 500
       (py ''PDF parsing failed: '' @ quoted (py ''utf-8'') @ py '' codec can'' @ [39]
          @ py ''t encode character '' @ quoted ([92] @ py ''ud835'')
          @ py '' in position 11: surrogates not allowed'')"
  by (simp add: sample_defs run_defs)

section \<open>The claims\<close>

text \<open>
  Claim C1. Whenever \<open>POST /parse\<close> answers 200, the upload had a name ending in \<open>.pdf\<close> in
  any case, the body was read, the reader was built, every page extracted to a string, and
  the \<open>text\<close> field is those strings in page order with one newline at each page boundary,
  empty pages included.
\<close>

theorem C1_text_is_pages_joined:
  assumes "fst (parse_pdf P up tr) = Returned body"
  shows "\<exists>fname c r ts. filename up = Some fname \<and> endswith (lower fname) (py ''.pdf'')
           \<and> body_read up = Inr c \<and> P c = Inr r \<and> pages r = map Inr (map PyStr ts)
           \<and> field body (py ''text'') = Some (VStr (pages_joined ts))"
proof -
  from parse_pdf_Returned_D [OF assms] obtain fname c r ts md where
    "filename up = Some fname" "endswith (lower fname) (py ''.pdf'')"
    "body_read up = Inr c" "P c = Inr r" "pages r = map Inr (map PyStr ts)"
    and b: "body = VDict [(py ''text'', VStr (pages_joined ts)),
                          (py ''metadata'', VDict (build_metadata (length (pages r)) md))]"
    by blast
  moreover from b have "field body (py ''text'') = Some (VStr (pages_joined ts))" by simp
  ultimately show ?thesis by (intro exI conjI)
qed

theorem C1_witness:
  "\<exists>body. fst (parse_pdf sample_PdfReader report_upload []) = Returned body
     \<and> (\<exists>fname c r ts. filename report_upload = Some fname
           \<and> endswith (lower fname) (py ''.pdf'')
           \<and> body_read report_upload = Inr c \<and> sample_PdfReader c = Inr r
           \<and> pages r = map Inr (map PyStr ts)
           \<and> field body (py ''text'') = Some (VStr (pages_joined ts)))"
  using report_upload_returns
    C1_text_is_pages_joined [where P = sample_PdfReader and up = report_upload and tr = "[]"]
  by blast

text \<open>
  Claim C2. Whenever \<open>POST /parse\<close> answers 200, \<open>metadata.pages\<close> is the number of pages of
  the reader, which is also the number of \<open>extract_text\<close> calls the request made.
\<close>

theorem C2_pages_is_page_count:
  assumes "fst (parse_pdf P up tr) = Returned body"
  shows "\<exists>c r md. body_read up = Inr c \<and> P c = Inr r
           \<and> field body (py ''metadata'') = Some md
           \<and> field md (py ''pages'') = Some (VInt (int (length (pages r))))
           \<and> extract_calls (snd (parse_pdf P up tr)) = extract_calls tr + length (pages r)"
proof -
  from parse_pdf_Returned_D [OF assms] obtain fname c r ts md where
    c: "body_read up = Inr c" and r: "P c = Inr r" and p: "pages r = map Inr (map PyStr ts)"
    and b: "body = VDict [(py ''text'', VStr (pages_joined ts)),
                          (py ''metadata'', VDict (build_metadata (length (pages r)) md))]"
    and n: "extract_calls (snd (parse_pdf P up tr)) = extract_calls tr + length ts"
    by blast
  from b have m: "field body (py ''metadata'') =
                    Some (VDict (build_metadata (length (pages r)) md))"
    by (simp add: py_def)
  have g: "field (VDict (build_metadata (length (pages r)) md)) (py ''pages'') =
             Some (VInt (int (length (pages r))))"
    by (simp add: build_metadata_pages)
  from p have "length (pages r) = length ts" by simp
  with n have "extract_calls (snd (parse_pdf P up tr)) = extract_calls tr + length (pages r)"
    by simp
  with c r m g show ?thesis by (intro exI conjI)
qed

theorem C2_witness:
  "\<exists>body. fst (parse_pdf sample_PdfReader report_upload []) = Returned body
     \<and> (\<exists>c r md. body_read report_upload = Inr c \<and> sample_PdfReader c = Inr r
           \<and> field body (py ''metadata'') = Some md
           \<and> field md (py ''pages'') = Some (VInt (int (length (pages r))))
           \<and> extract_calls (snd (parse_pdf sample_PdfReader report_upload [])) =
               extract_calls [] + length (pages r))"
  using report_upload_returns
    C2_pages_is_page_count [where P = sample_PdfReader and up = report_upload and tr = "[]"]
  by blast

text \<open>
  Claim C3. An upload whose name does not end in \<open>.pdf\<close> (in any case) is answered with
  status 400 and the detail \<open>File must be a PDF\<close>, and the trace is left as it was: the body
  is not read, no reader is built, no page is extracted.
\<close>

theorem C3_non_pdf_name_is_400:
  assumes "filename up = Some fname" and "\<not> endswith (lower fname) (py ''.pdf'')"
  shows "parse_pdf P up tr = (RaisedHTTP 400 (py ''File must be a PDF''), tr)
         \<and> status_code (fst (parse_pdf P up tr)) = Some 400"
  using assms by (simp add: parse_pdf_def)

theorem C3_witness:
  "filename notes_upload = Some (py ''notes.txt'')
   \<and> \<not> endswith (lower (py ''notes.txt'')) (py ''.pdf'')
   \<and> parse_pdf sample_PdfReader notes_upload [] =
       (RaisedHTTP 400 (py ''File must be a PDF''), [])
   \<and> status_code (fst (parse_pdf sample_PdfReader notes_upload [])) = Some 400"
proof -
  have f: "filename notes_upload = Some (py ''notes.txt'')" by (simp add: notes_upload_def)
  have n: "\<not> endswith (lower (py ''notes.txt'')) (py ''.pdf'')"
    by (simp add: py_def lower_def lower_char_def endswith_def)
  from f n C3_non_pdf_name_is_400 [where P = sample_PdfReader and tr = "[]", OF f n]
  show ?thesis by simp
qed

text \<open>
  Claim C4, as stated, fails: \<open>except Exception\<close> does not catch an exception that is not an
  instance of \<open>Exception\<close>. When \<open>await file.read()\<close> is cancelled, the
  \<open>asyncio.CancelledError\<close> leaves the handler and no 500 is raised.
\<close>

theorem C4_counterexample:
  "filename cancelled_upload = Some (py ''report.pdf'')
   \<and> endswith (lower (py ''report.pdf'')) (py ''.pdf'')
   \<and> body_read cancelled_upload = Inl (BaseExn (py ''CancelledError'') [])
   \<and> fst (parse_pdf sample_PdfReader cancelled_upload []) =
       Unhandled (BaseExn (py ''CancelledError'') [])
   \<and> status_code (fst (parse_pdf sample_PdfReader cancelled_upload [])) \<noteq> Some 500"
  by (simp add: cancelled_upload_def parse_pdf_def try_body_def py_def lower_def lower_char_def
        endswith_def)

text \<open>
  Claim C4, amended. For an upload named \<open>.pdf\<close>, let an exception be raised by reading the
  body, by building the reader, by extracting a page after the pages before it extracted,
  by joining the page texts, by reading the document metadata, or by building the JSON
  response. Nothing is returned. When the exception is an instance of \<open>Exception\<close>, the
  answer is status 500 with the detail \<open>PDF parsing failed: \<close> followed by the exception's
  text; otherwise the exception leaves the handler.
\<close>

theorem C4_caught_exception_is_500:
  assumes "filename up = Some fname" and "endswith (lower fname) (py ''.pdf'')"
    and "body_read up = Inl e
         \<or> (\<exists>c. body_read up = Inr c \<and> P c = Inl e)
         \<or> (\<exists>c r vs rest. body_read up = Inr c \<and> P c = Inr r
               \<and> pages r = map Inr vs @ Inl e # rest)
         \<or> (\<exists>c r vs. body_read up = Inr c \<and> P c = Inr r
               \<and> pages r = map Inr vs \<and> str_join newline vs = Inl e)
         \<or> (\<exists>c r ts. body_read up = Inr c \<and> P c = Inr r
               \<and> pages r = map Inr (map PyStr ts) \<and> metadata r = Inl e)
         \<or> (\<exists>c r ts md. body_read up = Inr c \<and> P c = Inr r
               \<and> pages r = map Inr (map PyStr ts) \<and> metadata r = Inr md
               \<and> JSONResponse
                     (VDict [(py ''text'', VStr (pages_joined ts)),
                             (py ''metadata'', VDict (build_metadata (length (pages r)) md))])
                   = Inl e)"
  shows "(\<forall>body. fst (parse_pdf P up tr) \<noteq> Returned body)
         \<and> (is_Exception e \<longrightarrow>
               fst (parse_pdf P up tr) =
                 RaisedHTTP 500 (py ''PDF parsing failed: '' @ exn_str e)
               \<and> status_code (fst (parse_pdf P up tr)) = Some 500)
         \<and> (\<not> is_Exception e \<longrightarrow> fst (parse_pdf P up tr) = Unhandled e)"
proof -
  have "fst (try_body P up fname tr) = Inl e"
    using assms(3)
  proof (elim disjE exE conjE)
    assume "body_read up = Inl e"
    then show ?thesis by (simp add: try_body_read_raises)
  next
    fix c assume "body_read up = Inr c" "P c = Inl e"
    then show ?thesis by (simp add: try_body_reader_raises)
  next
    fix c r vs rest
    assume "body_read up = Inr c" "P c = Inr r" "pages r = map Inr vs @ Inl e # rest"
    then show ?thesis
      by (rule try_body_extract_raises [where P = P and up = up and c = c and r = r])
  next
    fix c r vs
    assume "body_read up = Inr c" "P c = Inr r" "pages r = map Inr vs"
      "str_join newline vs = Inl e"
    then show ?thesis
      by (rule try_body_join_fails [where P = P and up = up and c = c and r = r])
  next
    fix c r ts
    assume "body_read up = Inr c" "P c = Inr r" "pages r = map Inr (map PyStr ts)"
      "metadata r = Inl e"
    then show ?thesis
      by (rule try_body_metadata_raises [where P = P and up = up and c = c and r = r])
  next
    fix c r ts md
    assume c: "body_read up = Inr c" and r: "P c = Inr r"
      and p: "pages r = map Inr (map PyStr ts)" and m: "metadata r = Inr md"
      and j: "JSONResponse
                (VDict [(py ''text'', VStr (pages_joined ts)),
                        (py ''metadata'', VDict (build_metadata (length (pages r)) md))])
              = Inl e"
    from try_body_response [where P = P and up = up and c = c and r = r, OF c r p m] j
    show ?thesis by simp
  qed
  then show ?thesis by (simp add: parse_pdf_fst [OF assms(1,2)])
qed

theorem C4_witness:
  "filename corrupt_upload = Some (py ''broken.pdf'')
   \<and> endswith (lower (py ''broken.pdf'')) (py ''.pdf'')
   \<and> body_read corrupt_upload = Inr [0]
   \<and> sample_PdfReader [0] = Inl (Exn (py ''PdfReadError'') (py ''EOF marker not found''))
   \<and> is_Exception (Exn (py ''PdfReadError'') (py ''EOF marker not found''))
   \<and> fst (parse_pdf sample_PdfReader corrupt_upload []) =
       RaisedHTTP 500 (py ''PDF parsing failed: EOF marker not found'')
   \<and> status_code (fst (parse_pdf sample_PdfReader corrupt_upload [])) = Some 500
   \<and> (\<forall>body. fst (parse_pdf sample_PdfReader corrupt_upload []) \<noteq> Returned body)"
proof -
  have f: "filename corrupt_upload = Some (py ''broken.pdf'')"
    by (simp add: corrupt_upload_def)
  have e: "endswith (lower (py ''broken.pdf'')) (py ''.pdf'')"
    by (simp add: py_def lower_def lower_char_def endswith_def)
  have b: "body_read corrupt_upload = Inr [0]" by (simp add: corrupt_upload_def)
  have p: "sample_PdfReader [0] = Inl (Exn (py ''PdfReadError'') (py ''EOF marker not found''))"
    by (simp add: sample_PdfReader_def)
  from b p have r:
    "body_read corrupt_upload = Inl (Exn (py ''PdfReadError'') (py ''EOF marker not found''))
     \<or> (\<exists>c. body_read corrupt_upload = Inr c
            \<and> sample_PdfReader c = Inl (Exn (py ''PdfReadError'') (py ''EOF marker not found'')))
     \<or> (\<exists>c r vs rest. body_read corrupt_upload = Inr c \<and> sample_PdfReader c = Inr r
            \<and> pages r = map Inr vs
                  @ Inl (Exn (py ''PdfReadError'') (py ''EOF marker not found'')) # rest)
     \<or> (\<exists>c r vs. body_read corrupt_upload = Inr c \<and> sample_PdfReader c = Inr r
            \<and> pages r = map Inr vs
            \<and> str_join newline vs =
                Inl (Exn (py ''PdfReadError'') (py ''EOF marker not found'')))
     \<or> (\<exists>c r ts. body_read corrupt_upload = Inr c \<and> sample_PdfReader c = Inr r
            \<and> pages r = map Inr (map PyStr ts)
            \<and> metadata r = Inl (Exn (py ''PdfReadError'') (py ''EOF marker not found'')))
     \<or> (\<exists>c r ts md. body_read corrupt_upload = Inr c \<and> sample_PdfReader c = Inr r
            \<and> pages r = map Inr (map PyStr ts) \<and> metadata r = Inr md
            \<and> JSONResponse
                  (VDict [(py ''text'', VStr (pages_joined ts)),
                          (py ''metadata'', VDict (build_metadata (length (pages r)) md))])
                = Inl (Exn (py ''PdfReadError'') (py ''EOF marker not found'')))"
    by blast
  from f e b p
    C4_caught_exception_is_500 [where P = sample_PdfReader and tr = "[]", OF f e r]
  show ?thesis by (simp add: py_def)
qed

text \<open>
  Claim C5. Whenever \<open>POST /parse\<close> answers 200, the metadata object has the keys \<open>author\<close>,
  \<open>title\<close> and \<open>createdDate\<close>; each holds the value of \<open>/Author\<close>, \<open>/Title\<close>,
  \<open>/CreationDate\<close> of the document metadata when there is a metadata dictionary with that
  key, and null when the key is missing or there is no metadata dictionary.
\<close>

theorem C5_metadata_fields_present:
  assumes "fst (parse_pdf P up tr) = Returned body"
  shows "\<exists>c r dm md. body_read up = Inr c \<and> P c = Inr r \<and> metadata r = Inr dm
           \<and> field body (py ''metadata'') = Some (VDict md)
           \<and> dict_get md (py ''author'') =
               Some (case dm of None \<Rightarrow> VNone
                     | Some d \<Rightarrow> (case dict_get d (py ''/Author'') of
                                     None \<Rightarrow> VNone | Some v \<Rightarrow> v))
           \<and> dict_get md (py ''title'') =
               Some (case dm of None \<Rightarrow> VNone
                     | Some d \<Rightarrow> (case dict_get d (py ''/Title'') of
                                     None \<Rightarrow> VNone | Some v \<Rightarrow> v))
           \<and> dict_get md (py ''createdDate'') =
               Some (case dm of None \<Rightarrow> VNone
                     | Some d \<Rightarrow> (case dict_get d (py ''/CreationDate'') of
                                     None \<Rightarrow> VNone | Some v \<Rightarrow> v))"
proof -
  from parse_pdf_Returned_D [OF assms] obtain fname c r ts dm where
    c: "body_read up = Inr c" and r: "P c = Inr r" and d: "metadata r = Inr dm"
    and b: "body = VDict [(py ''text'', VStr (pages_joined ts)),
                          (py ''metadata'', VDict (build_metadata (length (pages r)) dm))]"
    by blast
  from b have m: "field body (py ''metadata'') =
                    Some (VDict (build_metadata (length (pages r)) dm))"
    by (simp add: py_def)
  from c r d m build_metadata_author [of "length (pages r)" dm]
    build_metadata_title [of "length (pages r)" dm]
    build_metadata_createdDate [of "length (pages r)" dm]
  show ?thesis by (intro exI conjI)
qed

theorem C5_witness:
  "\<exists>body. fst (parse_pdf sample_PdfReader report_upload []) = Returned body
     \<and> (\<exists>c r dm md. body_read report_upload = Inr c \<and> sample_PdfReader c = Inr r
           \<and> metadata r = Inr dm
           \<and> field body (py ''metadata'') = Some (VDict md)
           \<and> dict_get md (py ''author'') =
               Some (case dm of None \<Rightarrow> VNone
                     | Some d \<Rightarrow> (case dict_get d (py ''/Author'') of
                                     None \<Rightarrow> VNone | Some v \<Rightarrow> v))
           \<and> dict_get md (py ''title'') =
               Some (case dm of None \<Rightarrow> VNone
                     | Some d \<Rightarrow> (case dict_get d (py ''/Title'') of
                                     None \<Rightarrow> VNone | Some v \<Rightarrow> v))
           \<and> dict_get md (py ''createdDate'') =
               Some (case dm of None \<Rightarrow> VNone
                     | Some d \<Rightarrow> (case dict_get d (py ''/CreationDate'') of
                                     None \<Rightarrow> VNone | Some v \<Rightarrow> v)))"
  using report_upload_returns
    C5_metadata_fields_present [where P = sample_PdfReader and up = report_upload and tr = "[]"]
  by blast

text \<open>
  Claim C6. \<open>GET /health\<close> returns the body \<open>{"status": "healthy", "service": "pdf-parser"}\<close>
  with status 200 from every trace and leaves the trace as it was, also after any sequence
  of earlier requests.
\<close>

theorem C6_health_is_fixed:
  "health_check tr =
     (Returned (VDict [(py ''status'', VStr (py ''healthy'')),
                       (py ''service'', VStr (py ''pdf-parser''))]), tr)
   \<and> status_code (fst (health_check tr)) = Some 200
   \<and> dispatch P GetHealth (snd (serve P reqs tr)) =
       (Returned (VDict [(py ''status'', VStr (py ''healthy'')),
                         (py ''service'', VStr (py ''pdf-parser''))]),
        snd (serve P reqs tr))"
  by (simp add: health_check_def dispatch_def)




text \<open>
  Claim C8. The outcome of \<open>POST /parse\<close> is a function of the upload and of what the
  extraction capability does on it: it is the same from any two traces, and after any
  sequence of earlier requests it is what it would be as the first request.
\<close>

theorem C8_response_independent_of_history:
  "fst (parse_pdf P up tr1) = fst (parse_pdf P up tr2)
   \<and> fst (dispatch P (PostParse up) (snd (serve P reqs tr))) = fst (parse_pdf P up [])"
  using parse_pdf_trace_indep [where P = P and up = up]
  by (simp add: dispatch_def)

text \<open>
  Claim C9. For an upload named \<open>.pdf\<close> whose pages all extract without an exception, one
  of them to \<open>None\<close>, the join raises \<open>TypeError\<close> at the first such page and the answer is
  status 500, not a 200 with that page taken as empty.
\<close>

theorem C9_none_page_is_500:
  assumes "filename up = Some fname" and "endswith (lower fname) (py ''.pdf'')"
    and "body_read up = Inr c" and "P c = Inr r"
    and "pages r = map Inr (map PyStr ts @ PyNone # rest)"
  shows "fst (parse_pdf P up tr) =
           RaisedHTTP 500 (py ''PDF parsing failed: sequence item '' @ str_nat (length ts)
                             @ py '': expected str instance, NoneType found'')
         \<and> status_code (fst (parse_pdf P up tr)) = Some 500"
proof -
  have "fst (try_body P up fname tr) =
      Inl (Exn (py ''TypeError'')
        (py ''sequence item '' @ str_nat (length ts)
           @ py '': expected str instance, NoneType found''))"
    using assms(3,4,5)
    by (rule try_body_join_raises [where P = P and up = up and c = c and r = r])
  then show ?thesis by (simp add: parse_pdf_fst [OF assms(1,2)] py_def)
qed

theorem C9_witness:
  "filename scanned_upload = Some (py ''scan.pdf'')
   \<and> endswith (lower (py ''scan.pdf'')) (py ''.pdf'')
   \<and> pages scanned_reader = map Inr (map PyStr [py ''Cover''] @ PyNone # [])
   \<and> fst (parse_pdf sample_PdfReader scanned_upload []) =
       RaisedHTTP 500
         (py ''PDF parsing failed: sequence item 1: expected str instance, NoneType found'')
   \<and> status_code (fst (parse_pdf sample_PdfReader scanned_upload [])) = Some 500"
proof -
  have f: "filename scanned_upload = Some (py ''scan.pdf'')"
    by (simp add: scanned_upload_def)
  have e: "endswith (lower (py ''scan.pdf'')) (py ''.pdf'')"
    by (simp add: py_def lower_def lower_char_def endswith_def)
  have b: "body_read scanned_upload = Inr [0x25, 0x50, 0x44, 0x46, 2]"
    by (simp add: scanned_upload_def)
  have p: "sample_PdfReader [0x25, 0x50, 0x44, 0x46, 2] = Inr scanned_reader"
    by (simp add: sample_PdfReader_def)
  have g: "pages scanned_reader = map Inr (map PyStr [py ''Cover''] @ PyNone # [])"
    by (simp add: scanned_reader_def)
  from f e g C9_none_page_is_500 [where P = sample_PdfReader and tr = "[]", OF f e b p g]
  show ?thesis by (simp add: str_nat.simps py_def)
qed

text \<open>
  Claim C10. For an upload with no filename, the suffix test raises \<open>AttributeError\<close> before
  the \<open>try\<close> block: the exception leaves the handler, which raises no \<open>HTTPException\<close> (so
  neither the 400 nor the 500 it is written to give), and nothing is read or logged.
\<close>

theorem C10_missing_filename_escapes:
  assumes "filename up = None"
  shows "parse_pdf P up tr =
           (Unhandled (Exn (py ''AttributeError'')
              (quoted (py ''NoneType'') @ py '' object has no attribute ''
                 @ quoted (py ''lower''))), tr)
         \<and> status_code (fst (parse_pdf P up tr)) = None
         \<and> (\<forall>code detail. fst (parse_pdf P up tr) \<noteq> RaisedHTTP code detail)"
  using assms by (simp add: parse_pdf_def)

theorem C10_witness:
  "filename nameless_upload = None
   \<and> parse_pdf sample_PdfReader nameless_upload [] =
       (Unhandled (Exn (py ''AttributeError'')
          (quoted (py ''NoneType'') @ py '' object has no attribute ''
             @ quoted (py ''lower''))), [])
   \<and> status_code (fst (parse_pdf sample_PdfReader nameless_upload [])) = None
   \<and> (\<forall>code detail.
         fst (parse_pdf sample_PdfReader nameless_upload []) \<noteq> RaisedHTTP code detail)"
proof -
  have f: "filename nameless_upload = None" by (simp add: nameless_upload_def)
  from f C10_missing_filename_escapes [where P = sample_PdfReader and tr = "[]", OF f]
  show ?thesis by simp
qed

end
